theory Spec2Isabelle
  imports Main "HOL-Library.Sublist" "HOL-Library.Multiset"
begin

section \<open>JavaScript strings and values\<close>

text \<open>
  Identifiers (user ids, room ids, the recipient typed into the dialog) are modelled as
  \<open>string\<close>: one \<open>char\<close> per UTF-16 code unit, restricted to the code points U+0000 ..
  U+00FF. Room names, message bodies and the search query are free text and are modelled
  as \<open>ustring\<close>, a list of UTF-16 code units without that restriction. A value that may be
  \<open>null\<close> or \<open>undefined\<close> is an \<open>option\<close>; both are falsy, and so is the empty string.
\<close>

definition truthy :: "string option \<Rightarrow> bool" where
  "truthy v = (case v of None \<Rightarrow> False | Some s \<Rightarrow> s \<noteq> [])"

text \<open>\<open>a || b\<close> on nullable strings, and \<open>a || "literal"\<close>.\<close>

definition orElse :: "string option \<Rightarrow> string option \<Rightarrow> string option" where
  "orElse a b = (if truthy a then a else b)"

definition orStr :: "string option \<Rightarrow> string \<Rightarrow> string" where
  "orStr a d = (case a of None \<Rightarrow> d | Some s \<Rightarrow> if s = [] then d else s)"

text \<open>
  \<open>String.prototype.trim\<close> removes white space and line terminators from both ends.
  Below U+0100 these are TAB, LF, VT, FF, CR, SPACE and NO-BREAK SPACE.
\<close>

definition isWhiteSpace :: "char \<Rightarrow> bool" where
  "isWhiteSpace c =
     (c \<in> set [CHR 0x09, CHR 0x0A, CHR 0x0B, CHR 0x0C, CHR 0x0D, CHR 0x20, CHR 0xA0])"

definition trim :: "string \<Rightarrow> string" where
  "trim s = rev (dropWhile isWhiteSpace (rev (dropWhile isWhiteSpace s)))"

text \<open>\<open>s.startsWith(p)\<close>, \<open>s.includes(q)\<close>, \<open>s.slice(n)\<close> for \<open>n \<ge> 0\<close>.\<close>

definition startsWith :: "string \<Rightarrow> string \<Rightarrow> bool" where
  "startsWith s p = prefix p s"

fun includes_str :: "'a list \<Rightarrow> 'a list \<Rightarrow> bool" where
  "includes_str [] q = (q = [])"
| "includes_str (c # s) q = (prefix q (c # s) \<or> includes_str s q)"

definition slice_from :: "'a list \<Rightarrow> nat \<Rightarrow> 'a list" where
  "slice_from xs n = drop n xs"

text \<open>
  \<open>s.split(sep)\<close> for a separator of one character: the segments between the
  separators, so \<open>"".split(":")\<close> is \<open>[""]\<close>. Reading an array out of range gives
  \<open>undefined\<close>.
\<close>

fun split :: "string \<Rightarrow> char \<Rightarrow> string list" where
  "split [] sep = [[]]"
| "split (c # s) sep =
     (if c = sep then [] # split s sep
      else (case split s sep of [] \<Rightarrow> [[c]] | seg # segs \<Rightarrow> (c # seg) # segs))"

definition at_index :: "'a list \<Rightarrow> nat \<Rightarrow> 'a option" where
  "at_index xs i = (if i < length xs then Some (xs ! i) else None)"

section \<open>Free text\<close>

text \<open>
  A free text is the list of its UTF-16 code units; an identifier is read as free text
  unit by unit.
\<close>

type_synonym ustring = "nat list"

definition utf16 :: "string \<Rightarrow> ustring" where
  "utf16 s = map of_char s"

text \<open>
  \<open>String.prototype.trim\<close> on free text: the code units of white space and line
  terminators are TAB, LF, VT, FF, CR, SPACE, U+00A0, U+1680, U+2000 .. U+200A, U+2028,
  U+2029, U+202F, U+205F, U+3000 and U+FEFF.
\<close>

definition isWhiteSpaceUnit :: "nat \<Rightarrow> bool" where
  "isWhiteSpaceUnit n =
     ((9 \<le> n \<and> n \<le> 13) \<or> n = 32 \<or> n = 160 \<or> n = 5760 \<or> (8192 \<le> n \<and> n \<le> 8202) \<or>
      n = 8232 \<or> n = 8233 \<or> n = 8239 \<or> n = 8287 \<or> n = 12288 \<or> n = 65279)"

definition trimUnits :: "ustring \<Rightarrow> ustring" where
  "trimUnits s = rev (dropWhile isWhiteSpaceUnit (rev (dropWhile isWhiteSpaceUnit s)))"

text \<open>
  \<open>String.prototype.toLowerCase\<close> belongs to the runtime, and it is neither a map over the
  code units nor length preserving: a capital sigma that ends a word becomes the final
  sigma, U+0130 becomes two code units. The functions that call it take it as the
  parameter \<open>lower\<close>, and what is proved of them holds for every such function.

  Where \<open>lower\<close> does act unit by unit, by a map \<open>f\<close> on the texts over a set \<open>S\<close> of code
  units, this is said by \<open>perUnit lower f S\<close>; the runtime's function does so on the code
  units below U+0100.
\<close>

definition perUnit :: "(ustring \<Rightarrow> ustring) \<Rightarrow> (nat \<Rightarrow> nat) \<Rightarrow> nat set \<Rightarrow> bool" where
  "perUnit lower f S = (\<forall>s. set s \<subseteq> S \<longrightarrow> lower s = map f s)"

section \<open>Identity normalizer\<close>

text \<open>
  \<^verbatim>\<open>const myServer = (myUserId || "").split(":")[1] || "matrix.org";\<close>
\<close>

definition myServer :: "string option \<Rightarrow> string" where
  "myServer myUserId = orStr (at_index (split (orStr myUserId []) (CHR '':'')) 1) ''matrix.org''"

definition normalizeMxId :: "string option \<Rightarrow> string option \<Rightarrow> string" where
  "normalizeMxId input myUserId =
     (let v = trim (orStr input []) in
      if v = [] then []
      else if startsWith v ''@'' \<and> includes_str v '':'' then v
      else (let name = (if startsWith v ''@'' then slice_from v 1 else v)
            in ''@'' @ name @ '':'' @ myServer myUserId))"

text \<open>
  The specification's wording of the same function, for comparison: the domain portion
  of \<open>myUserId\<close> is the text after its \<open>:\<close>, and a default public server domain
  stands in when there is none.
\<close>

definition domainPortion :: "string \<Rightarrow> string" where
  "domainPortion u = drop 1 (dropWhile (\<lambda>c. c \<noteq> CHR '':'') u)"

definition normalizeRecipientId :: "string \<Rightarrow> string \<Rightarrow> string" where
  "normalizeRecipientId input myUserId =
     (let v = trim input in
      if v = [] then []
      else if startsWith v ''@'' \<and> includes_str v '':'' then v
      else ''@'' @ (if startsWith v ''@'' then drop 1 v else v) @ '':'' @
           (if domainPortion myUserId = [] then ''matrix.org'' else domainPortion myUserId))"

section \<open>Data model\<close>

text \<open>
  The protocol client is an external dependency. An event, a room member, a room and
  the client carry what the program reads from them; a method that may be absent
  (\<open>room.getLastActiveTimestamp?.()\<close>) or return nothing is an \<open>option\<close>.
\<close>

text \<open>
  The \<open>body\<close> of a message content comes from the network and need not be a string: it is
  absent, a string, or another value, of which only the truthiness matters.
\<close>

datatype body = NoBody | TextBody ustring | OtherBody bool

record event =
  eventId :: string
  eventType :: string
  eventSender :: string
  eventTs :: int
  eventBody :: body

record member =
  memberName :: "string option"
  rawDisplayName :: "string option"
  displayName :: "string option"
  memberUserId :: "string option"

record room =
  roomId :: string
  roomName :: "ustring option"
  getLastActiveTimestamp :: "int option"
  getLiveTimeline :: "event list"
  getTypingMembers :: "member option list option"
  getLastLiveEventBody :: body

record client =
  getRooms :: "room list"
  getRoom :: "string \<Rightarrow> room option"

record session =
  baseUrl :: string
  accessToken :: string
  userId :: "string option"
  deviceId :: string

text \<open>
  Calls that leave the component are logged in order: the server-side logout and the
  removal of the persisted session record.
\<close>

datatype effect = ClientLogout | RemoveSessionItem

datatype outcome = Returned | Threw

text \<open>
  The state of \<open>App\<close>: one field per \<open>useState\<close> hook, the persisted session record of
  local storage, and the log of outbound calls.
\<close>

record app =
  session :: "session option"
  client :: "client option"
  rooms :: "room list"
  activeRoomId :: "string option"
  events :: "event list"
  message :: string
  query :: ustring
  isMobile :: bool
  newChatOpen :: bool
  newChatInput :: string
  newChatBusy :: bool
  typingUsers :: "string list"
  storage :: "session option"
  trace :: "effect list"

text \<open>\<^verbatim>\<open>const myUserId = session?.userId || null;\<close>\<close>

definition myUserId :: "app \<Rightarrow> string option" where
  "myUserId st = (case session st of None \<Rightarrow> None | Some s \<Rightarrow> orElse (userId s) None)"


section \<open>Presence signals: the displayed typing set\<close>

text \<open>
  \<^verbatim>\<open>m?.name || m?.rawDisplayName || m?.displayName || m?.userId\<close>, then
  \<^verbatim>\<open>.filter((n) => n).filter((n) => n !== myUserId).slice(0, 3)\<close>.
\<close>

definition typingName :: "member option \<Rightarrow> string option" where
  "typingName m =
     (case m of
        None \<Rightarrow> None
      | Some x \<Rightarrow>
          orElse (orElse (orElse (memberName x) (rawDisplayName x)) (displayName x))
                 (memberUserId x))"

fun filterTruthy :: "string option list \<Rightarrow> string list" where
  "filterTruthy [] = []"
| "filterTruthy (None # ns) = filterTruthy ns"
| "filterTruthy (Some n # ns) = (if n = [] then filterTruthy ns else n # filterTruthy ns)"

definition typingNames :: "member option list \<Rightarrow> string option \<Rightarrow> string list" where
  "typingNames typing me =
     take 3 (filter (\<lambda>n. Some n \<noteq> me) (filterTruthy (map typingName typing)))"

text \<open>\<^verbatim>\<open>room.getTypingMembers?.() || []\<close>\<close>

definition typingOf :: "room \<Rightarrow> member option list" where
  "typingOf r = (case getTypingMembers r of None \<Rightarrow> [] | Some t \<Rightarrow> t)"

text \<open>
  The listeners are closures of the effect that creates the client \<open>c\<close>. They read
  \<open>activeRoomId\<close>, \<open>isMobile\<close> and \<open>myUserId\<close> as captured at registration; the effect
  registers them anew whenever one of these changes, so the model reads them from the
  state.
\<close>

definition updateTypingForActive :: "client \<Rightarrow> app \<Rightarrow> app" where
  "updateTypingForActive c st =
     (case activeRoomId st of
        None \<Rightarrow> st\<lparr>typingUsers := []\<rparr>
      | Some rid \<Rightarrow>
          if rid = [] then st\<lparr>typingUsers := []\<rparr>
          else (case getRoom c rid of
                  None \<Rightarrow> st\<lparr>typingUsers := []\<rparr>
                | Some r \<Rightarrow> st\<lparr>typingUsers := typingNames (typingOf r) (myUserId st)\<rparr>))"

definition onTyping :: "client \<Rightarrow> room option \<Rightarrow> app \<Rightarrow> app" where
  "onTyping c r st =
     (case r of
        None \<Rightarrow> st
      | Some x \<Rightarrow> if Some (roomId x) \<noteq> activeRoomId st then st else updateTypingForActive c st)"

section \<open>Timeline reconciler\<close>

text \<open>
  \<^verbatim>\<open>const next = prev.concat(ev);
  return next.length > 200 ? next.slice(next.length - 200) : next;\<close>
\<close>

definition appendBounded :: "event list \<Rightarrow> event \<Rightarrow> event list" where
  "appendBounded prev ev =
     (let next = prev @ [ev]
      in if length next > 200 then slice_from next (length next - 200) else next)"

definition onRoomTimeline :: "event \<Rightarrow> room option \<Rightarrow> bool \<Rightarrow> app \<Rightarrow> app" where
  "onRoomTimeline ev r toStartOfTimeline st =
     (if toStartOfTimeline then st
      else (case r of
              None \<Rightarrow> st
            | Some x \<Rightarrow>
                if Some (roomId x) \<noteq> activeRoomId st then st
                else st\<lparr>events := appendBounded (events st) ev\<rparr>))"






section \<open>Room registry\<close>

text \<open>
  \<open>Array.prototype.sort\<close> with a comparator is a stable sort: an element stays before
  the later elements that the comparator does not put ahead of it.
\<close>

fun insert_by :: "('a \<Rightarrow> 'a \<Rightarrow> int) \<Rightarrow> 'a \<Rightarrow> 'a list \<Rightarrow> 'a list" where
  "insert_by cmp x [] = [x]"
| "insert_by cmp x (y # ys) = (if cmp x y \<le> 0 then x # y # ys else y # insert_by cmp x ys)"

definition array_sort :: "('a \<Rightarrow> 'a \<Rightarrow> int) \<Rightarrow> 'a list \<Rightarrow> 'a list" where
  "array_sort cmp xs = foldr (insert_by cmp) xs []"

text \<open>\<^verbatim>\<open>a.getLastActiveTimestamp?.() || 0\<close>: an absent value and the value 0 both give 0.\<close>

definition lastActive :: "room \<Rightarrow> int" where
  "lastActive r = (case getLastActiveTimestamp r of None \<Rightarrow> 0 | Some t \<Rightarrow> if t = 0 then 0 else t)"

definition byLastActive :: "room \<Rightarrow> room \<Rightarrow> int" where
  "byLastActive a b = (let ta = lastActive a; tb = lastActive b in tb - ta)"

definition updateRooms :: "client \<Rightarrow> app \<Rightarrow> app" where
  "updateRooms c st =
     (let rs = array_sort byLastActive (getRooms c);
          st' = st\<lparr>rooms := rs\<rparr>
      in (case rs of
            [] \<Rightarrow> st'
          | r # _ \<Rightarrow>
              if \<not> isMobile st \<and> \<not> truthy (activeRoomId st)
              then st'\<lparr>activeRoomId := Some (roomId r)\<rparr> else st'))"

text \<open>
  \<^verbatim>\<open>const name = (r.name || r.roomId || "").toLowerCase();
  const last = (r.getLastLiveEvent?.()?.getContent?.()?.body || "").toLowerCase();\<close>

  A truthy body that is not a string has no \<open>toLowerCase\<close>: the call throws a
  \<open>TypeError\<close>, which leaves \<open>filter\<close> and the computation of the list.
\<close>

datatype error = TypeError

definition shownName :: "room \<Rightarrow> ustring" where
  "shownName r =
     (case roomName r of
        None \<Rightarrow> utf16 (roomId r)
      | Some n \<Rightarrow> if n = [] then utf16 (roomId r) else n)"

definition previewText :: "room \<Rightarrow> ustring" where
  "previewText r = (case getLastLiveEventBody r of TextBody s \<Rightarrow> s | _ \<Rightarrow> [])"

definition lowerBody :: "(ustring \<Rightarrow> ustring) \<Rightarrow> room \<Rightarrow> error + ustring" where
  "lowerBody lower r =
     (case getLastLiveEventBody r of
        NoBody \<Rightarrow> Inr (lower [])
      | TextBody s \<Rightarrow> Inr (lower s)
      | OtherBody t \<Rightarrow> if t then Inl TypeError else Inr (lower []))"

text \<open>\<open>Array.prototype.filter\<close> with a callback that may throw.\<close>

fun filterE :: "('a \<Rightarrow> error + bool) \<Rightarrow> 'a list \<Rightarrow> error + 'a list" where
  "filterE p [] = Inr []"
| "filterE p (x # xs) =
     (case p x of
        Inl e \<Rightarrow> Inl e
      | Inr keep \<Rightarrow>
          (case filterE p xs of
             Inl e \<Rightarrow> Inl e
           | Inr ys \<Rightarrow> Inr (if keep then x # ys else ys)))"

definition matchesQuery :: "(ustring \<Rightarrow> ustring) \<Rightarrow> ustring \<Rightarrow> room \<Rightarrow> error + bool" where
  "matchesQuery lower q r =
     (let name = lower (shownName r)
      in (case lowerBody lower r of
            Inl e \<Rightarrow> Inl e
          | Inr preview \<Rightarrow> Inr (includes_str name q \<or> includes_str preview q)))"

definition filteredRooms :: "(ustring \<Rightarrow> ustring) \<Rightarrow> app \<Rightarrow> error + room list" where
  "filteredRooms lower st =
     (let q = lower (trimUnits (query st)) in
      if q = [] then Inr (rooms st)
      else filterE (matchesQuery lower q) (rooms st))"

text \<open>The rooms on which the filter cannot throw.\<close>

definition bodyIsText :: "room \<Rightarrow> bool" where
  "bodyIsText r = (getLastLiveEventBody r \<noteq> OtherBody True)"

section \<open>Command dispatcher: logout\<close>

text \<open>
  \<^verbatim>\<open>try { if (client) await client.logout(); } catch {}\<close>: the call is made when there
  is a client, and \<open>res\<close> says whether it threw.
\<close>

definition tryClientLogout :: "outcome \<Rightarrow> app \<Rightarrow> outcome \<times> app" where
  "tryClientLogout res st =
     (case client st of
        None \<Rightarrow> (Returned, st)
      | Some c \<Rightarrow> (res, st\<lparr>trace := trace st @ [ClientLogout]\<rparr>))"

definition clearSession :: "app \<Rightarrow> app" where
  "clearSession st = st\<lparr>storage := None, trace := trace st @ [RemoveSessionItem]\<rparr>"

definition resetState :: "app \<Rightarrow> app" where
  "resetState st =
     st\<lparr>client := None, session := None, rooms := [], activeRoomId := None, events := [],
        message := [], typingUsers := []\<rparr>"

definition logout :: "outcome \<Rightarrow> app \<Rightarrow> app" where
  "logout res st =
     (case tryClientLogout res st of
        (Returned, st') \<Rightarrow> resetState (clearSession st')
      | (Threw, st') \<Rightarrow> resetState (clearSession st'))"

section \<open>The specification's wording of substring matching\<close>

text \<open>
  A text contains a query as a case-insensitive substring when some contiguous part of
  the text equals the query once both are put in lower case.
\<close>

definition containsIgnoringCase :: "(ustring \<Rightarrow> ustring) \<Rightarrow> ustring \<Rightarrow> ustring \<Rightarrow> bool" where
  "containsIgnoringCase lower hay needle =
     (\<exists>mid. sublist mid hay \<and> lower mid = lower needle)"

section \<open>A fragment of the runtime's lower-casing\<close>

text \<open>
  To run the filter on concrete texts: the capitals of Basic Latin, Latin-1 and Greek go
  to their partners, a capital sigma that follows a letter and is not followed by one
  becomes the final sigma, and every other code unit stays. On the texts used below this
  is the value of \<open>toLowerCase\<close>.
\<close>

definition isUpperUnit :: "nat \<Rightarrow> bool" where
  "isUpperUnit n =
     ((65 \<le> n \<and> n \<le> 90) \<or> (192 \<le> n \<and> n \<le> 222 \<and> n \<noteq> 215) \<or>
      (913 \<le> n \<and> n \<le> 937 \<and> n \<noteq> 930))"

definition lowerUnit :: "nat \<Rightarrow> nat" where
  "lowerUnit n = (if isUpperUnit n then n + 32 else n)"

definition isCasedUnit :: "nat \<Rightarrow> bool" where
  "isCasedUnit n = (isUpperUnit n \<or> (32 \<le> n \<and> isUpperUnit (n - 32)) \<or> n = 962)"

fun lowerAfter :: "bool \<Rightarrow> ustring \<Rightarrow> ustring" where
  "lowerAfter p [] = []"
| "lowerAfter p (c # cs) =
     (if c = 931 \<and> p \<and> (case cs of [] \<Rightarrow> True | d # _ \<Rightarrow> \<not> isCasedUnit d)
      then 962 else lowerUnit c) # lowerAfter (isCasedUnit c) cs"

definition toLowerCaseSample :: "ustring \<Rightarrow> ustring" where
  "toLowerCaseSample s = lowerAfter False s"

section \<open>Concrete inputs\<close>

text \<open>
  Three events, members with and without a display name, rooms, clients and a logged-in
  state of the application, used to run the model.
\<close>

definition ev1 :: event where
  "ev1 = \<lparr>eventId = ''$1'', eventType = ''m.room.message'', eventSender = ''@bob:example.org'',
          eventTs = 1000, eventBody = TextBody (utf16 ''Hello World'')\<rparr>"

definition ev2 :: event where
  "ev2 = \<lparr>eventId = ''$2'', eventType = ''m.room.message'', eventSender = ''@carol:example.org'',
          eventTs = 2000, eventBody = TextBody (utf16 ''status?'')\<rparr>"

definition ev3 :: event where
  "ev3 = \<lparr>eventId = ''$3'', eventType = ''m.room.member'', eventSender = ''@dave:example.org'',
          eventTs = 3000, eventBody = NoBody\<rparr>"

definition named :: "string \<Rightarrow> string \<Rightarrow> member" where
  "named n u = \<lparr>memberName = Some n, rawDisplayName = None, displayName = None,
               memberUserId = Some u\<rparr>"

definition unnamed :: "string \<Rightarrow> member" where
  "unnamed u = \<lparr>memberName = None, rawDisplayName = Some [], displayName = None,
               memberUserId = Some u\<rparr>"

definition roomA :: room where
  "roomA = \<lparr>roomId = ''!a:example.org'', roomName = Some (utf16 ''alice's room''),
            getLastActiveTimestamp = Some 2000, getLiveTimeline = [ev1],
            getTypingMembers =
              Some [Some (unnamed ''@alice:example.org''), Some (named ''Bob'' ''@bob:example.org''),
                    None, Some (named ''Carol'' ''@carol:example.org''),
                    Some (unnamed ''@dave:example.org''), Some (named ''Erin'' ''@erin:example.org'')],
            getLastLiveEventBody = TextBody (utf16 ''Hello World'')\<rparr>"

definition roomB :: room where
  "roomB = \<lparr>roomId = ''!b:example.org'', roomName = None,
            getLastActiveTimestamp = None, getLiveTimeline = [ev2, ev3],
            getTypingMembers = None, getLastLiveEventBody = NoBody\<rparr>"

definition roomBig :: room where
  "roomBig = \<lparr>roomId = ''!big:example.org'', roomName = Some (utf16 ''Archive''),
              getLastActiveTimestamp = Some 1500, getLiveTimeline = replicate 201 ev1,
              getTypingMembers = Some [], getLastLiveEventBody = TextBody (utf16 ''Hello World'')\<rparr>"

definition roomOld :: room where
  "roomOld = \<lparr>roomId = ''!old:example.org'', roomName = Some (utf16 ''Old''),
              getLastActiveTimestamp = Some (- 1), getLiveTimeline = [ev3],
              getTypingMembers = None, getLastLiveEventBody = NoBody\<rparr>"

definition roomC :: room where
  "roomC = \<lparr>roomId = ''!c:example.org'', roomName = Some (utf16 ''Team''),
            getLastActiveTimestamp = Some 500, getLiveTimeline = [],
            getTypingMembers = Some [Some (named ''Alice'' ''@alice:example.org'')],
            getLastLiveEventBody = NoBody\<rparr>"

text \<open>A room named \<open>U+039F U+0394 U+039F U+03A3\<close>, the Greek word for road in capitals.\<close>

definition roomOdos :: room where
  "roomOdos = \<lparr>roomId = ''!o:example.org'', roomName = Some [927, 916, 927, 931],
               getLastActiveTimestamp = Some 100, getLiveTimeline = [],
               getTypingMembers = None, getLastLiveEventBody = NoBody\<rparr>"

text \<open>A room whose last message has the number 5 for a body.\<close>

definition roomNumber :: room where
  "roomNumber = \<lparr>roomId = ''!n:example.org'', roomName = Some (utf16 ''Numbers''),
                 getLastActiveTimestamp = Some 50, getLiveTimeline = [],
                 getTypingMembers = None, getLastLiveEventBody = OtherBody True\<rparr>"

text \<open>A client that \<open>sdk.createClient\<close> has just returned: no room is known to it.\<close>

definition unsyncedClient :: client where
  "unsyncedClient = \<lparr>getRooms = [], getRoom = (\<lambda>rid. None)\<rparr>"

text \<open>A client that knows \<open>roomB\<close> and \<open>roomBig\<close> with other timelines than the sample client.\<close>

definition syncedClient :: client where
  "syncedClient =
     \<lparr>getRooms = [roomB\<lparr>getLiveTimeline := [ev3]\<rparr>, roomBig\<lparr>getLiveTimeline := replicate 250 ev2\<rparr>],
      getRoom = (\<lambda>rid. if rid = ''!b:example.org'' then Some (roomB\<lparr>getLiveTimeline := [ev3]\<rparr>)
                      else if rid = ''!big:example.org''
                      then Some (roomBig\<lparr>getLiveTimeline := replicate 250 ev2\<rparr>) else None)\<rparr>"

definition typingClient :: client where
  "typingClient =
     \<lparr>getRooms = [roomC],
      getRoom = (\<lambda>rid. if rid = ''!c:example.org'' then Some roomC else None)\<rparr>"

definition sampleClient :: client where
  "sampleClient =
     \<lparr>getRooms = [roomB, roomBig, roomA],
      getRoom = (\<lambda>rid. if rid = ''!a:example.org'' then Some roomA
                      else if rid = ''!b:example.org'' then Some roomB
                      else if rid = ''!big:example.org'' then Some roomBig else None)\<rparr>"

definition oldClient :: client where
  "oldClient = \<lparr>getRooms = [roomOld, roomB], getRoom = (\<lambda>rid. None)\<rparr>"

definition sampleSession :: session where
  "sampleSession = \<lparr>baseUrl = ''https://example.org'', accessToken = ''secret'',
                    userId = Some ''@alice:example.org'', deviceId = ''DEV''\<rparr>"

definition sampleApp :: app where
  "sampleApp =
     \<lparr>session = Some sampleSession, client = Some sampleClient, rooms = [roomA],
      activeRoomId = Some ''!a:example.org'', events = [ev1], message = ''draft'',
      query = utf16 '' ALICE '', isMobile = False, newChatOpen = False, newChatInput = [],
      newChatBusy = False, typingUsers = [], storage = Some sampleSession, trace = []\<rparr>"

lemmas sample_defs =
  ev1_def ev2_def ev3_def named_def unnamed_def roomA_def roomB_def roomBig_def roomOld_def
  roomC_def roomOdos_def roomNumber_def unsyncedClient_def syncedClient_def typingClient_def
  sampleClient_def oldClient_def sampleSession_def sampleApp_def

lemmas lower_defs =
  toLowerCaseSample_def lowerUnit_def isUpperUnit_def isCasedUnit_def utf16_def

section \<open>Properties of the string primitives\<close>

lemma includes_sublist: "includes_str s q = sublist q s"
  by (induction s) (auto simp: sublist_Cons_right)

lemma includes_char: "includes_str s [c] = (c \<in> set s)"
  by (induction s) auto

lemma last_dropWhile: "dropWhile P xs \<noteq> [] \<Longrightarrow> last (dropWhile P xs) = last xs"
  by (induction xs) (auto split: if_splits)

text \<open>A string with no white space at either end is a fixed point of \<open>trim\<close>.\<close>

lemma trim_fixed:
  assumes "s = [] \<or> (\<not> isWhiteSpace (hd s) \<and> \<not> isWhiteSpace (last s))"
  shows "trim s = s"
proof (cases "s = []")
  case True
  then show ?thesis by (simp add: trim_def)
next
  case False
  with assms have h: "\<not> isWhiteSpace (hd s)" and l: "\<not> isWhiteSpace (last s)" by auto
  from h have a: "dropWhile isWhiteSpace s = s"
    by (simp add: dropWhile_eq_self_iff)
  from l False have "dropWhile isWhiteSpace (rev s) = rev s"
    by (simp add: dropWhile_eq_self_iff hd_rev)
  with a show ?thesis by (simp add: trim_def)
qed

lemma trim_ends:
  assumes "trim s \<noteq> []"
  shows "\<not> isWhiteSpace (hd (trim s)) \<and> \<not> isWhiteSpace (last (trim s))"
proof -
  define a where "a = dropWhile isWhiteSpace s"
  define b where "b = dropWhile isWhiteSpace (rev a)"
  have t: "trim s = rev b" by (simp add: trim_def a_def b_def)
  with assms have bne: "b \<noteq> []" by simp
  then have ane: "a \<noteq> []" by (auto simp: b_def)
  have hb: "\<not> isWhiteSpace (hd b)" using bne unfolding b_def by (rule hd_dropWhile)
  have "last b = last (rev a)" using bne unfolding b_def by (rule last_dropWhile)
  also have "\<dots> = hd a" using ane by (simp add: last_rev)
  finally have lb: "\<not> isWhiteSpace (last b)"
    using ane hd_dropWhile[of isWhiteSpace s] by (simp add: a_def)
  from hb lb bne show ?thesis by (simp add: t hd_rev last_rev)
qed

lemma trim_idem: "trim (trim s) = trim s"
  using trim_ends[of s] by (intro trim_fixed) blast

text \<open>The segments of \<open>split\<close>: there is always a first one, and the second one is the text
  between the first and the second separator.\<close>

lemma split_nonempty: "split s c \<noteq> []"
  by (induction s) (auto split: list.splits)

lemma hd_split: "hd (split s c) = takeWhile (\<lambda>x. x \<noteq> c) s"
  using split_nonempty[of _ c] by (induction s) (auto split: list.splits)

lemma split_second:
  "at_index (split u c) 1 =
     (if c \<in> set u
      then Some (takeWhile (\<lambda>x. x \<noteq> c) (drop 1 (dropWhile (\<lambda>x. x \<noteq> c) u)))
      else None)"
proof (induction u)
  case Nil
  then show ?case by (simp add: at_index_def)
next
  case (Cons a u)
  show ?case
  proof (cases "a = c")
    case True
    then show ?thesis using split_nonempty[of u c] hd_split[of u c]
      by (cases "split u c") (auto simp: at_index_def)
  next
    case False
    then show ?thesis using Cons split_nonempty[of u c]
      by (cases "split u c") (auto simp: at_index_def split: if_splits)
  qed
qed

lemma no_second_colon:
  "count_list u c \<le> 1 \<Longrightarrow> c \<notin> set (drop 1 (dropWhile (\<lambda>x. x \<noteq> c) u))"
proof (induction u)
  case Nil
  then show ?case by simp
next
  case (Cons a u)
  show ?case
  proof (cases "a = c")
    case True
    with Cons.prems have "count_list u c = 0" by simp
    then show ?thesis using True by (simp only: count_list_0_iff) simp
  next
    case False
    then show ?thesis using Cons by simp
  qed
qed

lemma dropWhile_absent: "c \<notin> set u \<Longrightarrow> dropWhile (\<lambda>x. x \<noteq> c) u = []"
  by (induction u) auto

section \<open>Identity normalizer: results\<close>

lemma myServer_nonempty: "myServer u \<noteq> []"
  by (simp add: myServer_def orStr_def split: option.splits)

lemma at_not_white: "\<not> isWhiteSpace (CHR ''@'')"
  by (simp add: isWhiteSpace_def)

text \<open>
  On a user id with at most one \<open>:\<close> the server part that the code takes is the domain
  portion of the specification, and the code computes what the specification says.
\<close>

lemma myServer_single_colon:
  assumes "count_list u (CHR '':'') \<le> 1"
  shows "myServer (Some u) = (if domainPortion u = [] then ''matrix.org'' else domainPortion u)"
proof -
  let ?d = "drop 1 (dropWhile (\<lambda>x. x \<noteq> CHR '':'') u)"
  have tw: "takeWhile (\<lambda>x. x \<noteq> CHR '':'') ?d = ?d"
    using no_second_colon[OF assms] by (simp only: takeWhile_eq_all_conv) blast
  have sp: "at_index (split u (CHR '':'')) 1 = (if CHR '':'' \<in> set u then Some ?d else None)"
    by (simp only: split_second tw)
  show ?thesis
  proof (cases "CHR '':'' \<in> set u")
    case True
    then have "u \<noteq> []" by auto
    then show ?thesis using True sp
      by (simp add: myServer_def orStr_def domainPortion_def)
  next
    case False
    then have "domainPortion u = []"
      by (simp add: domainPortion_def dropWhile_absent)
    moreover have "orStr (Some u) [] = u" by (simp add: orStr_def)
    ultimately show ?thesis using False sp
      by (simp add: myServer_def orStr_def)
  qed
qed

lemma normalizeMxId_meets_spec:
  "count_list u (CHR '':'') \<le> 1 \<Longrightarrow>
   normalizeMxId (Some i) (Some u) = normalizeRecipientId i u"
  by (simp add: normalizeMxId_def normalizeRecipientId_def myServer_single_colon orStr_def
        trim_def slice_from_def Let_def)

lemma normalizeMxId_examples:
  "normalizeMxId (Some ''bob'') (Some ''@alice:example.org'') = ''@bob:example.org''"
  "normalizeMxId (Some ''@bob:other.org'') (Some ''@alice:example.org'') = ''@bob:other.org''"
  "normalizeMxId (Some []) u = []"
  "normalizeMxId (Some '' @bob '') None = ''@bob:matrix.org''"
  by (simp_all add: normalizeMxId_def myServer_def orStr_def trim_def isWhiteSpace_def
        startsWith_def slice_from_def at_index_def)

text \<open>
  C6. The claim takes the domain portion of \<open>myUserId\<close> to be the text after its \<open>:\<close>. The
  code takes the second segment of \<open>split(":")\<close>, which stops at the next \<open>:\<close>: for a user
  id whose server name carries a port, the port is lost, and the result names another
  server than the one the specification's wording gives.
\<close>

theorem normalizeMxId_drops_port:
  "normalizeMxId (Some ''bob'') (Some ''@alice:localhost:8448'') = ''@bob:localhost'' \<and>
   normalizeRecipientId ''bob'' ''@alice:localhost:8448'' = ''@bob:localhost:8448''"
  by (simp add: normalizeMxId_def normalizeRecipientId_def myServer_def domainPortion_def
        orStr_def trim_def isWhiteSpace_def startsWith_def slice_from_def at_index_def)

lemma normalizeMxId_shape:
  "normalizeMxId input me \<noteq> [] \<Longrightarrow>
     startsWith (normalizeMxId input me) ''@'' \<and> includes_str (normalizeMxId input me) '':''"
  by (auto simp: normalizeMxId_def Let_def startsWith_def includes_char split: if_splits)

lemma normalizeMxId_fixed:
  assumes "startsWith w ''@''" "includes_str w '':''" "\<not> isWhiteSpace (last w)"
  shows "normalizeMxId (Some w) me = w"
proof -
  from assms(1) have ne: "w \<noteq> []" and hd: "hd w = CHR ''@''"
    by (auto simp: startsWith_def prefix_def)
  then have "trim w = w" using assms(3) at_not_white by (intro trim_fixed) simp
  with ne assms show ?thesis by (simp add: normalizeMxId_def orStr_def)
qed

text \<open>
  C9 (amended). Every non-empty result of \<open>normalizeMxId\<close> starts with \<open>@\<close> and contains
  \<open>:\<close>; and for every input and every \<open>myUserId\<close> whose server part, as \<open>myServer\<close> takes
  it, does not end in a white-space character, normalising the result again returns it
  unchanged.
\<close>

theorem normalizeMxId_idempotent:
  "(normalizeMxId input me \<noteq> [] \<longrightarrow>
      startsWith (normalizeMxId input me) ''@'' \<and>
      includes_str (normalizeMxId input me) '':'') \<and>
   (\<not> isWhiteSpace (last (myServer me)) \<longrightarrow>
      normalizeMxId (Some (normalizeMxId input me)) me = normalizeMxId input me)"
proof (intro conjI impI)
  assume nw: "\<not> isWhiteSpace (last (myServer me))"
  define v where "v = trim (orStr input [])"
  show "normalizeMxId (Some (normalizeMxId input me)) me = normalizeMxId input me"
  proof (cases "normalizeMxId input me = []")
    case True
    then show ?thesis by (simp add: normalizeMxId_def orStr_def trim_def)
  next
    case False
    note sh = normalizeMxId_shape[OF False]
    have "\<not> isWhiteSpace (last (normalizeMxId input me))"
    proof (cases "startsWith v ''@'' \<and> includes_str v '':''")
      case True
      then have "normalizeMxId input me = v" using False
        by (auto simp: normalizeMxId_def v_def Let_def)
      moreover have "v \<noteq> []" using True by (auto simp: startsWith_def)
      ultimately show ?thesis using trim_ends[of "orStr input []"] by (simp add: v_def)
    next
      case F: False
      then have "last (normalizeMxId input me) = last (myServer me)"
        using False myServer_nonempty[of me]
        by (auto simp: normalizeMxId_def v_def Let_def split: if_splits)
      then show ?thesis using nw by simp
    qed
    with sh show ?thesis by (intro normalizeMxId_fixed) auto
  qed
qed (use normalizeMxId_shape in auto)

text \<open>
  The amended C9 at the input \<open>" bob "\<close> for the local user \<open>@alice:example.org\<close>: the
  server part \<open>example.org\<close> does not end in white space, the result is
  \<open>@bob:example.org\<close>, and a second pass returns it unchanged.
\<close>

theorem normalizeMxId_idempotent_witness:
  "\<not> isWhiteSpace (last (myServer (Some ''@alice:example.org''))) \<and>
   normalizeMxId (Some '' bob '') (Some ''@alice:example.org'') = ''@bob:example.org'' \<and>
   startsWith ''@bob:example.org'' ''@'' \<and> includes_str ''@bob:example.org'' '':'' \<and>
   normalizeMxId (Some ''@bob:example.org'') (Some ''@alice:example.org'') = ''@bob:example.org''"
proof -
  have h: "\<not> isWhiteSpace (last (myServer (Some ''@alice:example.org'')))"
    by (simp add: myServer_def orStr_def at_index_def isWhiteSpace_def)
  have r: "normalizeMxId (Some '' bob '') (Some ''@alice:example.org'') = ''@bob:example.org''"
    by (simp add: normalizeMxId_def myServer_def orStr_def trim_def isWhiteSpace_def
          startsWith_def slice_from_def at_index_def)
  from normalizeMxId_idempotent[of "Some '' bob ''" "Some ''@alice:example.org''"] h r
  show ?thesis by simp
qed

text \<open>
  C9 as stated fails: the local user id \<open>"@a:b "\<close> gives the server part \<open>"b "\<close>, which
  is appended as it is, and the second pass trims the trailing space away.
\<close>

theorem normalizeMxId_not_idempotent:
  "normalizeMxId (Some (normalizeMxId (Some ''bob'') (Some ''@a:b ''))) (Some ''@a:b '') \<noteq>
   normalizeMxId (Some ''bob'') (Some ''@a:b '')"
  by (simp add: normalizeMxId_def myServer_def orStr_def trim_def isWhiteSpace_def
        startsWith_def slice_from_def at_index_def)

section \<open>Timeline reconciler: results\<close>

lemma appendBounded_eq:
  "appendBounded prev ev = drop (Suc (length prev) - 200) (prev @ [ev])"
  by (simp add: appendBounded_def slice_from_def Let_def)


lemma appendBounded_last: "last (appendBounded prev ev) = ev"
  by (simp add: appendBounded_eq)

lemma appendBounded_suffix: "suffix (appendBounded prev ev) (prev @ [ev])"
  by (simp only: appendBounded_eq suffix_drop)

lemma drop1_snoc: "ys \<noteq> [] \<Longrightarrow> drop 1 (ys @ [e]) = drop 1 ys @ [e]"
  by (cases ys) simp_all

lemma drop_snoc_le: "k \<le> length xs \<Longrightarrow> drop k (xs @ [e]) = drop k xs @ [e]"
  by simp

text \<open>
  A run of live appends to a sequence within the bound leaves the most recent 200 of
  everything received, in the order of arrival.
\<close>

lemma appendBounded_foldl:
  "length init \<le> 200 \<Longrightarrow>
   foldl appendBounded init evs = drop (length (init @ evs) - 200) (init @ evs)"
proof (induction evs rule: rev_induct)
  case Nil
  then show ?case by simp
next
  case (snoc e evs)
  let ?xs = "init @ evs"
  have step: "foldl appendBounded init (evs @ [e]) =
      appendBounded (drop (length ?xs - 200) ?xs) e"
    using snoc by simp
  show ?case
  proof (cases "length ?xs < 200")
    case True
    then show ?thesis unfolding step by (simp add: appendBounded_eq)
  next
    case False
    then have len: "length (drop (length ?xs - 200) ?xs) = 200" by simp
    have "appendBounded (drop (length ?xs - 200) ?xs) e =
        drop 1 (drop (length ?xs - 200) ?xs @ [e])"
      unfolding appendBounded_eq len by simp
    also have "\<dots> = drop (Suc (length ?xs - 200)) ?xs @ [e]"
    proof -
      from len have "drop (length ?xs - 200) ?xs \<noteq> []" by auto
      then have "drop 1 (drop (length ?xs - 200) ?xs @ [e]) =
          drop 1 (drop (length ?xs - 200) ?xs) @ [e]"
        by (rule drop1_snoc)
      then show ?thesis by (simp only: drop_drop) simp
    qed
    also have "\<dots> = drop (length (init @ evs @ [e]) - 200) (init @ evs @ [e])"
    proof -
      from False have k: "length (init @ evs @ [e]) - 200 = Suc (length ?xs - 200)" by simp
      from False have "Suc (length ?xs - 200) \<le> length ?xs" by simp
      then have "drop (Suc (length ?xs - 200)) (?xs @ [e]) =
          drop (Suc (length ?xs - 200)) ?xs @ [e]"
        by (rule drop_snoc_le)
      then show ?thesis unfolding k by simp
    qed
    finally show ?thesis unfolding step .
  qed
qed

text \<open>
  C3. A live append puts the event at the tail; when the result would hold more than
  200 entries, entries are dropped from the head and exactly the most recent 200
  remain, ending with the new event; at or below the bound the result is all the
  existing entries followed by the new one.
\<close>

theorem appendBounded_retention:
  "(200 < length (prev @ [ev]) \<longrightarrow>
      appendBounded prev ev = drop (length (prev @ [ev]) - 200) (prev @ [ev]) \<and>
      length (appendBounded prev ev) = 200 \<and>
      suffix (appendBounded prev ev) (prev @ [ev]) \<and>
      last (appendBounded prev ev) = ev) \<and>
   (length (prev @ [ev]) \<le> 200 \<longrightarrow> appendBounded prev ev = prev @ [ev])"
  using appendBounded_suffix[of prev ev]
  by (simp add: appendBounded_eq)

text \<open>
  C3 at a sequence of 200 entries, where the append evicts the oldest, and at a
  sequence of one entry, where nothing is evicted.
\<close>

theorem appendBounded_retention_witness:
  "200 < length (replicate 199 ev1 @ [ev2] @ [ev3]) \<and>
   appendBounded (replicate 199 ev1 @ [ev2]) ev3 = replicate 198 ev1 @ [ev2, ev3] \<and>
   length (appendBounded (replicate 199 ev1 @ [ev2]) ev3) = 200 \<and>
   length ([ev1] @ [ev2]) \<le> 200 \<and>
   appendBounded [ev1] ev2 = [ev1, ev2]"
proof -
  have h: "200 < length ((replicate 199 ev1 @ [ev2]) @ [ev3])" by simp
  have d: "drop (length ((replicate 199 ev1 @ [ev2]) @ [ev3]) - 200)
      ((replicate 199 ev1 @ [ev2]) @ [ev3]) = replicate 198 ev1 @ [ev2, ev3]"
    by simp
  have h': "length ([ev1] @ [ev2]) \<le> 200" by simp
  from appendBounded_retention[of "replicate 199 ev1 @ [ev2]" ev3] h d
  have 1: "appendBounded (replicate 199 ev1 @ [ev2]) ev3 = replicate 198 ev1 @ [ev2, ev3]"
    and 2: "length (appendBounded (replicate 199 ev1 @ [ev2]) ev3) = 200"
    by simp_all
  from appendBounded_retention[of "[ev1]" ev2] h'
  have 3: "appendBounded [ev1] ev2 = [ev1, ev2]" by simp
  from h 1 2 h' 3 show ?thesis by simp
qed

text \<open>
  C2. A timeline notification that is marked historical, or carries no room, or whose
  room is not the active one, leaves the whole state unchanged, and so the event
  sequence; the sequence changes only on a live notification for the active room; and
  such a notification changes nothing but the event sequence, which becomes a suffix of
  the old sequence followed by the new event, the new event last.
\<close>

theorem onRoomTimeline_frame:
  "(toStart \<or> r = None \<or> (\<exists>x. r = Some x \<and> Some (roomId x) \<noteq> activeRoomId st)
      \<longrightarrow> onRoomTimeline ev r toStart st = st) \<and>
   (events (onRoomTimeline ev r toStart st) \<noteq> events st
      \<longrightarrow> \<not> toStart \<and> (\<exists>x. r = Some x \<and> Some (roomId x) = activeRoomId st)) \<and>
   (\<not> toStart \<and> r = Some x \<and> Some (roomId x) = activeRoomId st
      \<longrightarrow> onRoomTimeline ev r toStart st = st\<lparr>events := appendBounded (events st) ev\<rparr> \<and>
          suffix (events (onRoomTimeline ev r toStart st)) (events st @ [ev]) \<and>
          last (events (onRoomTimeline ev r toStart st)) = ev)"
  using appendBounded_suffix[of "events st" ev]
  by (auto simp: onRoomTimeline_def appendBounded_last split: option.splits)

text \<open>
  C2 in the sample state, whose active room is \<open>roomA\<close>: a historical event for
  \<open>roomA\<close> and a live event for \<open>roomB\<close> change nothing; a live event for \<open>roomA\<close> is
  appended at the tail.
\<close>

theorem onRoomTimeline_frame_witness:
  "Some (roomId roomA) = activeRoomId sampleApp \<and>
   Some (roomId roomB) \<noteq> activeRoomId sampleApp \<and>
   onRoomTimeline ev2 (Some roomA) True sampleApp = sampleApp \<and>
   onRoomTimeline ev2 (Some roomB) False sampleApp = sampleApp \<and>
   onRoomTimeline ev2 (Some roomA) False sampleApp = sampleApp\<lparr>events := [ev1, ev2]\<rparr> \<and>
   last (events (onRoomTimeline ev2 (Some roomA) False sampleApp)) = ev2"
proof -
  have a: "Some (roomId roomA) = activeRoomId sampleApp"
    by (simp add: roomA_def sampleApp_def)
  have b: "Some (roomId roomB) \<noteq> activeRoomId sampleApp"
    by (simp add: roomB_def sampleApp_def)
  have e: "appendBounded (events sampleApp) ev2 = [ev1, ev2]"
    by (simp add: appendBounded_eq sampleApp_def)
  from onRoomTimeline_frame[of True "Some roomA" sampleApp ev2]
  have 1: "onRoomTimeline ev2 (Some roomA) True sampleApp = sampleApp" by simp
  from onRoomTimeline_frame[of False "Some roomB" sampleApp ev2] b
  have 2: "onRoomTimeline ev2 (Some roomB) False sampleApp = sampleApp" by simp
  from onRoomTimeline_frame[of False "Some roomA" sampleApp ev2 roomA] a
  have 3: "onRoomTimeline ev2 (Some roomA) False sampleApp =
        sampleApp\<lparr>events := appendBounded (events sampleApp) ev2\<rparr>"
    and 4: "last (events (onRoomTimeline ev2 (Some roomA) False sampleApp)) = ev2"
    by blast+
  from a b 1 2 3 4 e show ?thesis by simp
qed



















section \<open>Room registry: results\<close>

lemma byLastActive_le: "(byLastActive x y \<le> 0) = (lastActive y \<le> lastActive x)"
  by (simp add: byLastActive_def Let_def)

lemma set_insert_by: "set (insert_by cmp x xs) = insert x (set xs)"
  by (induction xs) auto

lemma mset_insert_by: "mset (insert_by cmp x xs) = add_mset x (mset xs)"
  by (induction xs) auto

lemma mset_array_sort: "mset (array_sort cmp xs) = mset xs"
  by (induction xs) (simp_all add: array_sort_def mset_insert_by)

lemma sorted_insert_by:
  "sorted_wrt (\<lambda>a b. lastActive b \<le> lastActive a) xs \<Longrightarrow>
   sorted_wrt (\<lambda>a b. lastActive b \<le> lastActive a) (insert_by byLastActive x xs)"
  by (induction xs) (auto simp: byLastActive_le set_insert_by)

lemma sorted_array_sort:
  "sorted_wrt (\<lambda>a b. lastActive b \<le> lastActive a) (array_sort byLastActive xs)"
  by (induction xs) (simp_all add: array_sort_def sorted_insert_by)

lemma updateRooms_rooms: "rooms (updateRooms c st) = array_sort byLastActive (getRooms c)"
  by (simp add: updateRooms_def Let_def split: list.splits)

text \<open>
  C4 (amended). The registry refresh produces a rearrangement of the client's room set
  that is sorted in non-increasing order of last-activity timestamp, where a room with
  no recorded activity counts as 0; such a room therefore comes after every room whose
  recorded timestamp is positive.
\<close>

theorem updateRooms_sorted:
  "mset (rooms (updateRooms c st)) = mset (getRooms c) \<and>
   sorted_wrt (\<lambda>a b. lastActive b \<le> lastActive a) (rooms (updateRooms c st)) \<and>
   (\<forall>r. getLastActiveTimestamp r = None \<longrightarrow> lastActive r = 0) \<and>
   (\<forall>i j t. i < length (rooms (updateRooms c st)) \<and> j < length (rooms (updateRooms c st)) \<and>
        getLastActiveTimestamp (rooms (updateRooms c st) ! i) = None \<and>
        getLastActiveTimestamp (rooms (updateRooms c st) ! j) = Some t \<and> 0 < t
      \<longrightarrow> j < i)"
proof -
  let ?out = "rooms (updateRooms c st)"
  have out: "?out = array_sort byLastActive (getRooms c)" by (rule updateRooms_rooms)
  have p: "mset ?out = mset (getRooms c)"
    unfolding out by (rule mset_array_sort)
  have s: "sorted_wrt (\<lambda>a b. lastActive b \<le> lastActive a) ?out"
    unfolding out by (rule sorted_array_sort)
  have f: "\<forall>r. getLastActiveTimestamp r = None \<longrightarrow> lastActive r = 0"
    by (simp add: lastActive_def)
  have l: "j < i"
    if a: "i < length ?out \<and> j < length ?out \<and>
        getLastActiveTimestamp (?out ! i) = None \<and>
        getLastActiveTimestamp (?out ! j) = Some t \<and> 0 < t" for i j t
  proof (rule ccontr)
    from a have ki: "lastActive (?out ! i) = 0" and kj: "lastActive (?out ! j) = t"
      by (simp_all add: lastActive_def)
    assume "\<not> j < i"
    with a have "i < j" by (cases "i = j") auto
    with s a have "lastActive (?out ! j) \<le> lastActive (?out ! i)"
      by (simp only: sorted_wrt_iff_nth_less)
    with ki kj a show False by simp
  qed
  from p s f l show ?thesis by blast
qed

text \<open>
  The amended C4 on the sample client, which reports \<open>roomB\<close> (no activity), \<open>roomBig\<close>
  (1500) and \<open>roomA\<close> (2000): the refresh lists \<open>roomA\<close>, \<open>roomBig\<close>, \<open>roomB\<close>, and the
  room with no activity, at index 2, comes after the room with timestamp 2000, at
  index 0.
\<close>

theorem updateRooms_sorted_witness:
  "getRooms sampleClient = [roomB, roomBig, roomA] \<and>
   rooms (updateRooms sampleClient sampleApp) = [roomA, roomBig, roomB] \<and>
   getLastActiveTimestamp roomB = None \<and> getLastActiveTimestamp roomA = Some 2000 \<and>
   sorted_wrt (\<lambda>a b. lastActive b \<le> lastActive a) (rooms (updateRooms sampleClient sampleApp)) \<and>
   (0::nat) < 2"
proof -
  have g: "getRooms sampleClient = [roomB, roomBig, roomA]" by (simp add: sampleClient_def)
  have r: "rooms (updateRooms sampleClient sampleApp) = [roomA, roomBig, roomB]"
    by (simp add: updateRooms_rooms array_sort_def byLastActive_def lastActive_def
          sampleClient_def roomA_def roomB_def roomBig_def)
  have b: "getLastActiveTimestamp roomB = None" by (simp add: roomB_def)
  have a: "getLastActiveTimestamp roomA = Some 2000" by (simp add: roomA_def)
  note t = updateRooms_sorted[of sampleClient sampleApp]
  from t have s: "sorted_wrt (\<lambda>a b. lastActive b \<le> lastActive a)
      (rooms (updateRooms sampleClient sampleApp))"
    by blast
  from t have "2 < length (rooms (updateRooms sampleClient sampleApp)) \<and>
        0 < length (rooms (updateRooms sampleClient sampleApp)) \<and>
        getLastActiveTimestamp (rooms (updateRooms sampleClient sampleApp) ! 2) = None \<and>
        getLastActiveTimestamp (rooms (updateRooms sampleClient sampleApp) ! 0) = Some 2000 \<and>
        (0::int) < 2000 \<longrightarrow> (0::nat) < 2"
    by blast
  then have o: "(0::nat) < 2" using r a b by simp
  from g r b a s o show ?thesis by blast
qed

text \<open>
  C4 as stated fails: a room with the recorded timestamp \<open>-1\<close> comes after the room with
  no recorded activity, whose value 0 is the greater one.
\<close>

theorem updateRooms_quiet_before_recorded:
  "getLastActiveTimestamp roomB = None \<and> getLastActiveTimestamp roomOld = Some (- 1) \<and>
   getRooms oldClient = [roomOld, roomB] \<and>
   rooms (updateRooms oldClient sampleApp) = [roomB, roomOld]"
  by (simp add: updateRooms_rooms array_sort_def byLastActive_def lastActive_def
        oldClient_def roomOld_def roomB_def)

section \<open>Room filter: results\<close>

lemma filterE_filter:
  "(\<And>x. x \<in> set xs \<Longrightarrow> p x = Inr (P x)) \<Longrightarrow> filterE p xs = Inr (filter P xs)"
  by (induction xs) simp_all

lemma filterE_throws:
  "x \<in> set xs \<Longrightarrow> p x = Inl TypeError \<Longrightarrow> filterE p xs = Inl TypeError"
proof (induction xs)
  case Nil
  then show ?case by simp
next
  case (Cons y ys)
  show ?case
  proof (cases "p y")
    case (Inl e)
    then show ?thesis by (cases e) simp
  next
    case (Inr keep)
    with Cons have "filterE p ys = Inl TypeError" by auto
    with Inr show ?thesis by simp
  qed
qed

lemma set_trimUnits: "set (trimUnits s) \<subseteq> set s"
proof -
  have "set (trimUnits s) \<subseteq> set (dropWhile isWhiteSpaceUnit s)"
    unfolding trimUnits_def by (auto dest: set_dropWhileD)
  then show ?thesis by (auto dest: set_dropWhileD)
qed

lemma utf16_latin: "set (utf16 s) \<subseteq> {n. n < 256}"
  by (auto simp: utf16_def)

text \<open>On a room whose body is absent, a string or falsy, the callback returns.\<close>

lemma matchesQuery_text:
  "bodyIsText r \<Longrightarrow>
   matchesQuery lower q r =
     Inr (sublist q (lower (shownName r)) \<or> sublist q (lower (previewText r)))"
  by (cases "getLastLiveEventBody r")
    (simp_all add: matchesQuery_def lowerBody_def previewText_def bodyIsText_def
       includes_sublist)

lemma matchesQuery_throws: "\<not> bodyIsText r \<Longrightarrow> matchesQuery lower q r = Inl TypeError"
  by (simp add: matchesQuery_def lowerBody_def bodyIsText_def)

text \<open>
  The miss that the amended claim leaves aside: with a query that is not blank, one room
  whose last message has a truthy body that is not a string makes the whole filter throw.
\<close>

lemma filteredRooms_throws:
  "lower (trimUnits (query st)) \<noteq> [] \<Longrightarrow> r \<in> set (rooms st) \<Longrightarrow> \<not> bodyIsText r \<Longrightarrow>
   filteredRooms lower st = Inl TypeError"
  by (simp add: filteredRooms_def Let_def filterE_throws[of r] matchesQuery_throws)

text \<open>
  Where \<open>lower\<close> acts unit by unit, containment of the lower-cased query in the lower-cased
  text is the specification's matching.
\<close>

lemma perUnit_contains:
  assumes "perUnit lower f S" "set hay \<subseteq> S" "set needle \<subseteq> S"
  shows "sublist (lower needle) (lower hay) = containsIgnoringCase lower hay needle"
proof
  have lh: "lower hay = map f hay" and ln: "lower needle = map f needle"
    using assms by (simp_all add: perUnit_def)
  assume "sublist (lower needle) (lower hay)"
  then obtain ps ss where "map f hay = ps @ map f needle @ ss"
    by (auto simp: sublist_def lh ln)
  then obtain a vs where 1: "hay = a @ vs" "map f needle @ ss = map f vs"
    unfolding map_eq_append_conv by blast
  from 1(2) obtain b c where 2: "vs = b @ c" "map f needle = map f b"
    unfolding append_eq_map_conv by blast
  from 1(1) 2(1) have h: "hay = a @ b @ c" by simp
  then have "set b \<subseteq> S" using assms(2) by auto
  then have "lower b = map f b" using assms(1) by (simp add: perUnit_def)
  with 2(2) ln have "lower b = lower needle" by simp
  moreover from h have "sublist b hay" by (simp only: sublist_appendI)
  ultimately show "containsIgnoringCase lower hay needle"
    unfolding containsIgnoringCase_def by blast
next
  have lh: "lower hay = map f hay" and ln: "lower needle = map f needle"
    using assms by (simp_all add: perUnit_def)
  assume "containsIgnoringCase lower hay needle"
  then obtain mid where m: "sublist mid hay" "lower mid = lower needle"
    by (auto simp: containsIgnoringCase_def)
  from m(1) obtain ps ss where h: "hay = ps @ mid @ ss"
    by (auto simp: sublist_def)
  then have "set mid \<subseteq> S" using assms(2) by auto
  then have "lower mid = map f mid" using assms(1) by (simp add: perUnit_def)
  with m(2) ln have e: "map f mid = map f needle" by simp
  from h have "map f hay = map f ps @ map f mid @ map f ss" by simp
  then have "sublist (map f mid) (map f hay)" by (simp only: sublist_appendI)
  then show "sublist (lower needle) (lower hay)" by (simp only: lh ln e)
qed

lemma perUnit_Nil: "perUnit lower f S \<Longrightarrow> set s \<subseteq> S \<Longrightarrow> (lower s = []) = (s = [])"
  by (simp add: perUnit_def)

text \<open>
  C5 (amended). A query whose trimmed lower-case form is empty returns the room list
  unchanged. On a room list in which every last-message body is absent, a string or
  falsy, any other query keeps, in their order, exactly the rooms whose lower-cased shown
  name (the name, else the room id) or lower-cased preview body contains the lower-cased
  trimmed query, with \<open>toLowerCase\<close> as the runtime computes it. Where \<open>toLowerCase\<close> acts
  code unit by code unit on the texts involved, as it does below U+0100, these are the
  rooms whose shown name or preview body contains the trimmed query as a
  case-insensitive substring, and a query that is blank returns the list unchanged.
\<close>

theorem filteredRooms_trimmed_query:
  "(lower (trimUnits (query st)) = [] \<longrightarrow> filteredRooms lower st = Inr (rooms st)) \<and>
   ((\<forall>r \<in> set (rooms st). bodyIsText r) \<longrightarrow>
      filteredRooms lower st =
        Inr (if lower (trimUnits (query st)) = [] then rooms st
             else filter (\<lambda>r. sublist (lower (trimUnits (query st))) (lower (shownName r)) \<or>
                              sublist (lower (trimUnits (query st))) (lower (previewText r)))
                    (rooms st)) \<and>
      (perUnit lower f S \<and> set (query st) \<subseteq> S \<and>
       (\<forall>r \<in> set (rooms st). set (shownName r) \<subseteq> S \<and> set (previewText r) \<subseteq> S) \<longrightarrow>
         filteredRooms lower st =
           Inr (if trimUnits (query st) = [] then rooms st
                else filter (\<lambda>r. containsIgnoringCase lower (shownName r) (trimUnits (query st)) \<or>
                                 containsIgnoringCase lower (previewText r) (trimUnits (query st)))
                       (rooms st))))"
proof (intro conjI impI)
  assume "lower (trimUnits (query st)) = []"
  then show "filteredRooms lower st = Inr (rooms st)"
    by (simp add: filteredRooms_def Let_def)
next
  let ?q = "trimUnits (query st)"
  assume t: "\<forall>r \<in> set (rooms st). bodyIsText r"
  then have "filterE (matchesQuery lower (lower ?q)) (rooms st) =
      Inr (filter (\<lambda>r. sublist (lower ?q) (lower (shownName r)) \<or>
                       sublist (lower ?q) (lower (previewText r))) (rooms st))"
    by (intro filterE_filter) (simp add: matchesQuery_text)
  then show g: "filteredRooms lower st =
        Inr (if lower ?q = [] then rooms st
             else filter (\<lambda>r. sublist (lower ?q) (lower (shownName r)) \<or>
                              sublist (lower ?q) (lower (previewText r))) (rooms st))"
    by (simp add: filteredRooms_def Let_def)
  assume p: "perUnit lower f S \<and> set (query st) \<subseteq> S \<and>
       (\<forall>r \<in> set (rooms st). set (shownName r) \<subseteq> S \<and> set (previewText r) \<subseteq> S)"
  then have q: "set ?q \<subseteq> S" using set_trimUnits[of "query st"] by blast
  have e: "(lower ?q = []) = (?q = [])" using perUnit_Nil[of lower f S ?q] p q by blast
  have "filter (\<lambda>r. sublist (lower ?q) (lower (shownName r)) \<or>
                    sublist (lower ?q) (lower (previewText r))) (rooms st) =
      filter (\<lambda>r. containsIgnoringCase lower (shownName r) ?q \<or>
                  containsIgnoringCase lower (previewText r) ?q) (rooms st)"
    using p q by (intro filter_cong refl) (simp add: perUnit_contains[of lower f S])
  with g e show "filteredRooms lower st =
           Inr (if ?q = [] then rooms st
                else filter (\<lambda>r. containsIgnoringCase lower (shownName r) ?q \<or>
                                 containsIgnoringCase lower (previewText r) ?q) (rooms st))"
    by simp
qed

lemma lowerAfter_latin: "set s \<subseteq> {n. n < 256} \<Longrightarrow> lowerAfter p s = map lowerUnit s"
  by (induction s arbitrary: p) auto

lemma perUnit_sample: "perUnit toLowerCaseSample lowerUnit {n. n < 256}"
  by (simp add: perUnit_def toLowerCaseSample_def lowerAfter_latin)

lemmas filter_defs =
  filteredRooms_def Let_def matchesQuery_def lowerBody_def shownName_def previewText_def
  trimUnits_def isWhiteSpaceUnit_def

text \<open>
  The amended C5 on three rooms whose texts lie below U+0100: the query \<open>" WORLD"\<close>, found
  only in preview bodies and there in another case, keeps \<open>roomA\<close> and \<open>roomBig\<close> in their
  order, and these are the rooms that contain \<open>WORLD\<close> as a case-insensitive substring; a
  query of blanks keeps all.
\<close>

theorem filteredRooms_trimmed_query_witness:
  "perUnit toLowerCaseSample lowerUnit {n. n < 256} \<and>
   trimUnits (utf16 '' WORLD'') = utf16 ''WORLD'' \<and>
   filteredRooms toLowerCaseSample
     (sampleApp\<lparr>rooms := [roomB, roomA, roomBig], query := utf16 '' WORLD''\<rparr>) =
     Inr [roomA, roomBig] \<and>
   filter (\<lambda>r. containsIgnoringCase toLowerCaseSample (shownName r) (utf16 ''WORLD'') \<or>
               containsIgnoringCase toLowerCaseSample (previewText r) (utf16 ''WORLD''))
     [roomB, roomA, roomBig] = [roomA, roomBig] \<and>
   trimUnits (utf16 ''  '') = [] \<and>
   filteredRooms toLowerCaseSample
     (sampleApp\<lparr>rooms := [roomB, roomA, roomBig], query := utf16 ''  ''\<rparr>) =
     Inr [roomB, roomA, roomBig]"
proof -
  let ?s = "sampleApp\<lparr>rooms := [roomB, roomA, roomBig], query := utf16 '' WORLD''\<rparr>"
  let ?b = "sampleApp\<lparr>rooms := [roomB, roomA, roomBig], query := utf16 ''  ''\<rparr>"
  let ?S = "{n. n < (256::nat)}"
  note p = perUnit_sample
  have t: "trimUnits (utf16 '' WORLD'') = utf16 ''WORLD''"
    by (simp add: trimUnits_def isWhiteSpaceUnit_def utf16_def)
  have t': "trimUnits (utf16 ''  '') = []"
    by (simp add: trimUnits_def isWhiteSpaceUnit_def utf16_def)
  have l: "toLowerCaseSample [] = []" by (simp add: toLowerCaseSample_def)
  have e: "filteredRooms toLowerCaseSample ?s = Inr [roomA, roomBig]"
    by (simp add: filter_defs lower_defs roomA_def roomB_def roomBig_def)
  have x: "\<forall>r \<in> set (rooms ?s). bodyIsText r"
    by (simp add: bodyIsText_def roomA_def roomB_def roomBig_def)
  have n: "\<forall>r \<in> set (rooms ?s). set (shownName r) \<subseteq> ?S \<and> set (previewText r) \<subseteq> ?S"
    using utf16_latin
    by (simp add: shownName_def previewText_def roomA_def roomB_def roomBig_def)
  have q: "set (query ?s) \<subseteq> ?S" using utf16_latin by simp
  from filteredRooms_trimmed_query[of toLowerCaseSample ?s lowerUnit ?S] x p q n
  have "filteredRooms toLowerCaseSample ?s =
      Inr (if trimUnits (query ?s) = [] then rooms ?s
           else filter (\<lambda>r. containsIgnoringCase toLowerCaseSample (shownName r) (trimUnits (query ?s)) \<or>
                            containsIgnoringCase toLowerCaseSample (previewText r) (trimUnits (query ?s)))
                  (rooms ?s))"
    by blast
  with e t
  have 1: "filter (\<lambda>r. containsIgnoringCase toLowerCaseSample (shownName r) (utf16 ''WORLD'') \<or>
               containsIgnoringCase toLowerCaseSample (previewText r) (utf16 ''WORLD''))
     [roomB, roomA, roomBig] = [roomA, roomBig]"
    by (simp add: utf16_def)
  from filteredRooms_trimmed_query[of toLowerCaseSample ?b] t' l
  have 2: "filteredRooms toLowerCaseSample ?b = Inr [roomB, roomA, roomBig]" by simp
  from p t e 1 t' 2 show ?thesis by blast
qed

text \<open>
  C5 as stated fails in two ways. The query \<open>" ALICE "\<close> is not empty, and neither the
  shown name \<open>alice's room\<close> nor the preview \<open>Hello World\<close> contains it in any case, blanks
  included; the room is kept all the same, since the query is trimmed first. And the room
  named \<open>U+039F U+0394 U+039F U+03A3\<close> contains the query \<open>U+03A3\<close> as it stands, yet it is
  dropped: in lower case the name ends in the final sigma \<open>U+03C2\<close>, and the query alone
  becomes \<open>U+03C3\<close>.
\<close>

theorem filteredRooms_not_plain_match:
  "query sampleApp = utf16 '' ALICE '' \<and> rooms sampleApp = [roomA] \<and>
   \<not> includes_str (toLowerCaseSample (shownName roomA)) (toLowerCaseSample (query sampleApp)) \<and>
   \<not> includes_str (toLowerCaseSample (previewText roomA)) (toLowerCaseSample (query sampleApp)) \<and>
   filteredRooms toLowerCaseSample sampleApp = Inr [roomA] \<and>
   shownName roomOdos = [927, 916, 927, 931] \<and> includes_str (shownName roomOdos) [931] \<and>
   toLowerCaseSample [927, 916, 927, 931] = [959, 948, 959, 962] \<and>
   toLowerCaseSample [931] = [963] \<and>
   filteredRooms toLowerCaseSample (sampleApp\<lparr>rooms := [roomOdos], query := [931]\<rparr>) = Inr []"
  by (simp add: filter_defs lower_defs sampleApp_def roomA_def roomOdos_def)

text \<open>
  The filter on a room whose last message has the number 5 for a body: the query \<open>a\<close>
  throws, where the room list of the sidebar guards the same body with \<open>safeText\<close>.
\<close>

lemma filteredRooms_throws_on_number:
  "filteredRooms toLowerCaseSample (sampleApp\<lparr>rooms := [roomA, roomNumber], query := [97]\<rparr>) =
     Inl TypeError"
  by (simp add: filter_defs lower_defs roomA_def roomNumber_def)

section \<open>Logout: results\<close>

text \<open>
  C7. From every state, and whether the server-side logout returned or threw, logout
  leaves the persisted session record cleared and the session, client, room list,
  active room selection, event sequence, composer text and typing set empty; the
  server-side call, made when there is a client, comes before the clearing; and the
  final state does not depend on the outcome of the call.
\<close>

theorem logout_clears_everything:
  "session (logout res st) = None \<and> client (logout res st) = None \<and>
   rooms (logout res st) = [] \<and> activeRoomId (logout res st) = None \<and>
   events (logout res st) = [] \<and> message (logout res st) = [] \<and>
   typingUsers (logout res st) = [] \<and> storage (logout res st) = None \<and>
   trace (logout res st) =
     trace st @ (case client st of None \<Rightarrow> [] | Some c \<Rightarrow> [ClientLogout]) @
     [RemoveSessionItem] \<and>
   logout Threw st = logout Returned st"
  by (cases res)
    (simp_all add: logout_def tryClientLogout_def clearSession_def resetState_def
       split: option.splits)

text \<open>C7 in the sample state, which is logged in, with the server-side call throwing.\<close>

theorem logout_clears_everything_witness:
  "client sampleApp = Some sampleClient \<and> storage sampleApp = Some sampleSession \<and>
   events sampleApp = [ev1] \<and>
   session (logout Threw sampleApp) = None \<and> client (logout Threw sampleApp) = None \<and>
   rooms (logout Threw sampleApp) = [] \<and> activeRoomId (logout Threw sampleApp) = None \<and>
   events (logout Threw sampleApp) = [] \<and> message (logout Threw sampleApp) = [] \<and>
   typingUsers (logout Threw sampleApp) = [] \<and> storage (logout Threw sampleApp) = None \<and>
   trace (logout Threw sampleApp) = [ClientLogout, RemoveSessionItem] \<and>
   logout Threw sampleApp = logout Returned sampleApp"
proof -
  have c: "client sampleApp = Some sampleClient" "storage sampleApp = Some sampleSession"
    "events sampleApp = [ev1]" "trace sampleApp = []"
    by (simp_all add: sampleApp_def)
  note l = logout_clears_everything[of Threw sampleApp]
  from l have "trace (logout Threw sampleApp) =
      trace sampleApp @ (case client sampleApp of None \<Rightarrow> [] | Some c \<Rightarrow> [ClientLogout]) @
      [RemoveSessionItem]"
    by blast
  with c have t: "trace (logout Threw sampleApp) = [ClientLogout, RemoveSessionItem]"
    by simp
  from l c(1-3) t show ?thesis by blast
qed

section \<open>Typing set: results\<close>

lemma filterTruthy_set: "n \<in> set (filterTruthy ns) \<Longrightarrow> n \<noteq> [] \<and> Some n \<in> set ns"
  by (induction ns rule: filterTruthy.induct) (auto split: if_splits)

lemma typingNames_length: "length (typingNames typing me) \<le> 3"
  by (simp add: typingNames_def)

lemma typingNames_member:
  assumes "n \<in> set (typingNames typing me)"
  shows "Some n \<noteq> me \<and> n \<noteq> [] \<and> (\<exists>m \<in> set typing. typingName m = Some n)"
proof -
  from assms
  have "n \<in> set (filter (\<lambda>n. Some n \<noteq> me) (filterTruthy (map typingName typing)))"
    unfolding typingNames_def by (rule in_set_takeD)
  then have 1: "Some n \<noteq> me" and 2: "n \<in> set (filterTruthy (map typingName typing))"
    by simp_all
  from filterTruthy_set[OF 2] have "n \<noteq> []" and "Some n \<in> typingName ` set typing"
    by simp_all
  with 1 show ?thesis by (metis imageE)
qed

lemma updateTyping_cases:
  "typingUsers (updateTypingForActive c st) = [] \<or>
   (\<exists>rid active. activeRoomId st = Some rid \<and> getRoom c rid = Some active \<and>
      typingUsers (updateTypingForActive c st) = typingNames (typingOf active) (myUserId st))"
  by (simp add: updateTypingForActive_def split: option.splits)

text \<open>
  What the code does ensure on a typing notification for the active room: the displayed
  typing set has at most 3 entries, no entry is equal to the local user's id, and every
  entry is the display identifier (name, raw display name, display name or user id, the
  first that is set) of a member that the client reports as typing in that room.
\<close>

theorem onTyping_typing_set:
  "r = Some x \<and> Some (roomId x) = activeRoomId st \<longrightarrow>
     length (typingUsers (onTyping c r st)) \<le> 3 \<and>
     (\<forall>n \<in> set (typingUsers (onTyping c r st)).
        Some n \<noteq> myUserId st \<and>
        (\<exists>active m. getRoom c (roomId x) = Some active \<and> m \<in> set (typingOf active) \<and>
           typingName m = Some n))"
proof
  assume a: "r = Some x \<and> Some (roomId x) = activeRoomId st"
  then have on: "onTyping c r st = updateTypingForActive c st"
    by (simp add: onTyping_def)
  from updateTyping_cases[of c st]
  show "length (typingUsers (onTyping c r st)) \<le> 3 \<and>
     (\<forall>n \<in> set (typingUsers (onTyping c r st)).
        Some n \<noteq> myUserId st \<and>
        (\<exists>active m. getRoom c (roomId x) = Some active \<and> m \<in> set (typingOf active) \<and>
           typingName m = Some n))"
  proof
    assume "typingUsers (updateTypingForActive c st) = []"
    then show ?thesis by (simp add: on)
  next
    assume "\<exists>rid active. activeRoomId st = Some rid \<and> getRoom c rid = Some active \<and>
      typingUsers (updateTypingForActive c st) = typingNames (typingOf active) (myUserId st)"
    then obtain rid active where h: "activeRoomId st = Some rid" "getRoom c rid = Some active"
      "typingUsers (updateTypingForActive c st) = typingNames (typingOf active) (myUserId st)"
      by blast
    from a h(1) have rid: "rid = roomId x" by simp
    show ?thesis unfolding on h(3)
      using typingNames_length[of "typingOf active" "myUserId st"]
        typingNames_member[of _ "typingOf active" "myUserId st"] h(2) rid
      by blast
  qed
qed

text \<open>
  In the sample state \<open>roomA\<close> reports six typing entries, the local user
  \<open>@alice:example.org\<close> first, without a display name, and one of them null; three are
  displayed, and the local user's id is not among them.
\<close>

theorem onTyping_typing_set_witness:
  "Some (roomId roomA) = activeRoomId sampleApp \<and>
   myUserId sampleApp = Some ''@alice:example.org'' \<and>
   typingUsers (onTyping sampleClient (Some roomA) sampleApp) =
     [''Bob'', ''Carol'', ''@dave:example.org''] \<and>
   length (typingUsers (onTyping sampleClient (Some roomA) sampleApp)) \<le> 3 \<and>
   ''@alice:example.org'' \<notin> set (typingUsers (onTyping sampleClient (Some roomA) sampleApp))"
proof -
  have h: "Some roomA = Some roomA \<and> Some (roomId roomA) = activeRoomId sampleApp"
    by (simp add: roomA_def sampleApp_def)
  have m: "myUserId sampleApp = Some ''@alice:example.org''"
    by (simp add: myUserId_def sampleApp_def sampleSession_def orElse_def truthy_def)
  have t: "typingUsers (onTyping sampleClient (Some roomA) sampleApp) =
      [''Bob'', ''Carol'', ''@dave:example.org'']"
    by (simp add: onTyping_def updateTypingForActive_def typingNames_def typingOf_def
          typingName_def myUserId_def orElse_def truthy_def sample_defs)
  from onTyping_typing_set[of "Some roomA" roomA sampleApp sampleClient] h m
  have "length (typingUsers (onTyping sampleClient (Some roomA) sampleApp)) \<le> 3"
    and "''@alice:example.org'' \<notin> set (typingUsers (onTyping sampleClient (Some roomA) sampleApp))"
    by auto
  with h m t show ?thesis by blast
qed

text \<open>
  C8. The displayed typing set is to contain no entry that identifies the local user.
  The code means to exclude the local user with \<open>n !== myUserId\<close>, but by then the entries
  are display identifiers: when the only member reported as typing is the local user
  \<open>@alice:example.org\<close>, under the display name \<open>Alice\<close>, the displayed set is \<open>Alice\<close>, an
  entry that identifies the local user.
\<close>

theorem onTyping_lists_local_user:
  "myUserId sampleApp = Some ''@alice:example.org'' \<and>
   typingOf roomC = [Some (named ''Alice'' ''@alice:example.org'')] \<and>
   memberUserId (named ''Alice'' ''@alice:example.org'') = Some ''@alice:example.org'' \<and>
   typingUsers (onTyping typingClient (Some roomC)
                  (sampleApp\<lparr>activeRoomId := Some ''!c:example.org''\<rparr>)) = [''Alice'']"
  by (simp add: onTyping_def updateTypingForActive_def typingNames_def typingOf_def
        typingName_def myUserId_def orElse_def truthy_def sample_defs)

end
